theory Spec2Isabelle
  imports Complex_Main
begin

section \<open>Python values and strings\<close>

text \<open>
  The development embeds \<^verbatim>\<open>core/Process_Control_20251201.py\<close>, the dated rewrite of the
  test runner: its validator, judge, state manager, UART communicator and runner. The
  repository also keeps an older runner (\<^verbatim>\<open>Process_Control.py\<close> with
  \<^verbatim>\<open>Conditional.py\<close>, \<^verbatim>\<open>UART_communication.py\<close> and \<^verbatim>\<open>Statistic.py\<close>); the dated file
  carries its own copy of every class it uses and is the program modelled here.

  Python strings are modelled as \<^typ>\<open>string\<close>, each character a code point below 256.
  The values that YAML files deliver (command numbers, condition fields, user inputs) are
  \<open>None\<close>, strings and integers.
\<close>

datatype pyval = PNone | PStr string | PInt int

datatype exc = ValueError | TypeError | SerialException | OtherException

text \<open>Truthiness, as \<^verbatim>\<open>if x:\<close> tests it.\<close>

fun truthy :: "pyval \<Rightarrow> bool" where
  "truthy PNone = False"
| "truthy (PStr s) = (s \<noteq> [])"
| "truthy (PInt n) = (n \<noteq> 0)"

definition digit_char :: "nat \<Rightarrow> char" where
  "digit_char d = char_of (48 + d)"

fun nat_digits :: "nat \<Rightarrow> string" where
  "nat_digits n = (if n < 10 then [digit_char n] else nat_digits (n div 10) @ [digit_char (n mod 10)])"

declare nat_digits.simps [simp del]

definition int_str :: "int \<Rightarrow> string" where
  "int_str i = (if i < 0 then CHR ''-'' # nat_digits (nat (- i)) else nat_digits (nat i))"

text \<open>
  \<^verbatim>\<open>str(x)\<close> and the \<^verbatim>\<open>{x}\<close> of an f-string. (CPython refuses to print an integer of
  more than 4300 digits; a YAML loader cannot deliver one, since it builds its integers with
  \<^verbatim>\<open>int()\<close>, which has the same limit.)
\<close>

fun py_str :: "pyval \<Rightarrow> string" where
  "py_str PNone = ''None''"
| "py_str (PStr s) = s"
| "py_str (PInt i) = int_str i"

text \<open>
  \<^verbatim>\<open>str.strip()\<close> drops the characters for which \<^verbatim>\<open>str.isspace()\<close> holds: below 256
  these are TAB, LF, VT, FF, CR, the separators 0x1C to 0x1F, the space, NEL (0x85) and the
  no-break space (0xA0).
\<close>

definition is_space :: "char \<Rightarrow> bool" where
  "is_space c = (c \<in> set [CHR 0x09, CHR 0x0A, CHR 0x0B, CHR 0x0C, CHR 0x0D,
                           CHR 0x1C, CHR 0x1D, CHR 0x1E, CHR 0x1F, CHR 0x20,
                           CHR 0x85, CHR 0xA0])"

definition strip :: "string \<Rightarrow> string" where
  "strip s = rev (dropWhile is_space (rev (dropWhile is_space s)))"

text \<open>
  \<^verbatim>\<open>int()\<close> skips less at both ends of its argument: TAB, LF, VT, FF, CR and the space,
  and the two spaces beyond ASCII (NEL and the no-break space), which it first turns into
  spaces. The separators 0x1C to 0x1F are not skipped, so a string that starts or ends
  with one of them is no integer.
\<close>

definition is_int_space :: "char \<Rightarrow> bool" where
  "is_int_space c = (c \<in> set [CHR 0x09, CHR 0x0A, CHR 0x0B, CHR 0x0C, CHR 0x0D, CHR 0x20,
                               CHR 0x85, CHR 0xA0])"

definition int_strip :: "string \<Rightarrow> string" where
  "int_strip s = rev (dropWhile is_int_space (rev (dropWhile is_int_space s)))"

definition is_digit :: "char \<Rightarrow> bool" where
  "is_digit c = (c \<in> set ''0123456789'')"

definition digit_val :: "char \<Rightarrow> nat" where
  "digit_val c = of_char c - 48"

text \<open>
  The digits of an \<^verbatim>\<open>int()\<close> literal after the first one: digits, each optionally
  preceded by a single underscore.
\<close>

fun py_digits :: "string \<Rightarrow> nat \<Rightarrow> nat option" where
  "py_digits [] acc = Some acc"
| "py_digits (c # cs) acc =
     (if is_digit c then py_digits cs (10 * acc + digit_val c)
      else if c = CHR ''_'' then
        (case cs of
           [] \<Rightarrow> None
         | d # ds \<Rightarrow> if is_digit d then py_digits ds (10 * acc + digit_val d) else None)
      else None)"

definition int_max_str_digits :: nat where
  "int_max_str_digits = 4300"

definition py_unsigned :: "string \<Rightarrow> nat option" where
  "py_unsigned body =
     (if int_max_str_digits < length (filter is_digit body) then None
      else case body of
             [] \<Rightarrow> None
           | d # ds \<Rightarrow> if is_digit d then py_digits ds (digit_val d) else None)"

text \<open>
  \<^verbatim>\<open>int(s)\<close> for a string in base 10: the whitespace that \<^verbatim>\<open>int()\<close> skips is dropped at
  both ends, one sign is allowed, and CPython's default limit of 4300 digits applies
  (underscores and whitespace do not count, leading zeros do). \<open>None\<close> stands for the
  \<^verbatim>\<open>ValueError\<close> that \<^verbatim>\<open>int()\<close> raises.
\<close>

definition py_int :: "string \<Rightarrow> int option" where
  "py_int s =
     (case int_strip s of
        [] \<Rightarrow> None
      | c # cs \<Rightarrow>
          if c = CHR ''-'' then map_option (\<lambda>n. - int n) (py_unsigned cs)
          else if c = CHR ''+'' then map_option int (py_unsigned cs)
          else map_option int (py_unsigned (c # cs)))"

text \<open>\<^verbatim>\<open>int(x)\<close> for a value read from a YAML mapping.\<close>

fun to_int :: "pyval \<Rightarrow> exc + int" where
  "to_int (PInt i) = Inr i"
| "to_int (PStr s) = (case py_int s of None \<Rightarrow> Inl ValueError | Some i \<Rightarrow> Inr i)"
| "to_int PNone = Inl TypeError"

type_synonym pydict = "string \<rightharpoonup> pyval"

section \<open>Validator\<close>

text \<open>
  \<^verbatim>\<open>classify_data\<close>: \<^verbatim>\<open>response.split(" ", 1)\<close> cuts at the first space character; when
  there is none the unpacking raises \<^verbatim>\<open>ValueError\<close> and the handler returns the whole
  response with no value.
\<close>

definition classify_data :: "string \<Rightarrow> string \<times> string option" where
  "classify_data response =
     (if CHR '' '' \<in> set response
      then (takeWhile (\<lambda>c. c \<noteq> CHR '' '') response,
            Some (tl (dropWhile (\<lambda>c. c \<noteq> CHR '' '') response)))
      else (response, None))"

definition is_valid_timestamp :: "int \<Rightarrow> string \<Rightarrow> bool" where
  "is_valid_timestamp current_time actual_value =
     (case py_int actual_value of
        None \<Rightarrow> False
      | Some timestamp \<Rightarrow> \<bar>current_time - timestamp\<bar> < 300)"

definition is_hex :: "char \<Rightarrow> bool" where
  "is_hex c = (c \<in> set ''0123456789ABCDEFabcdef'')"

text \<open>\<open>mac_groups n s\<close> consumes \<open>n\<close> groups of two hexadecimal digits and a separator.\<close>

fun mac_groups :: "nat \<Rightarrow> string \<Rightarrow> string option" where
  "mac_groups 0 s = Some s"
| "mac_groups (Suc n) (a # b # c # s) =
     (if is_hex a \<and> is_hex b \<and> (c = CHR '':'' \<or> c = CHR ''-'') then mac_groups n s else None)"
| "mac_groups (Suc n) s = None"

text \<open>
  \<^verbatim>\<open>re.match\<close> of \<^verbatim>\<open>^([0-9A-Fa-f]{2}[:-]){5}([0-9A-Fa-f]{2})$\<close>; the \<^verbatim>\<open>$\<close> of Python
  also matches before a final newline.
\<close>

definition is_valid_mac_address :: "string \<Rightarrow> bool" where
  "is_valid_mac_address actual_value =
     (case mac_groups 5 actual_value of
        Some [a, b] \<Rightarrow> is_hex a \<and> is_hex b
      | Some [a, b, nl] \<Rightarrow> is_hex a \<and> is_hex b \<and> nl = CHR 0x0A
      | _ \<Rightarrow> False)"

definition is_valid_rcode :: "string \<Rightarrow> bool" where
  "is_valid_rcode actual_value = (0 < length actual_value)"

definition deferred_types :: "pyval list" where
  "deferred_types = [PStr ''asynchrony'', PStr ''restore'', PStr ''therapy start'', PStr ''therapy stop'']"

text \<open>\<^verbatim>\<open>condition.get(key)\<close> is \<open>None\<close> for a missing key.\<close>

definition dict_get :: "pydict \<Rightarrow> string \<Rightarrow> pyval" where
  "dict_get d k = (case d k of None \<Rightarrow> PNone | Some v \<Rightarrow> v)"

definition dict_get_default :: "pydict \<Rightarrow> string \<Rightarrow> pyval \<Rightarrow> pyval" where
  "dict_get_default d k v0 = (case d k of None \<Rightarrow> v0 | Some v \<Rightarrow> v)"

text \<open>
  \<^verbatim>\<open>validate_data\<close>. The two bounds of a \<^verbatim>\<open>between\<close> condition are converted outside the
  \<^verbatim>\<open>try\<close>, so a bound that is no integer raises; the conversion of the actual value is
  inside it. The first argument is the clock reading that \<^verbatim>\<open>is_valid_timestamp\<close> takes.
\<close>

definition validate_data :: "int \<Rightarrow> pydict \<Rightarrow> string \<Rightarrow> exc + bool" where
  "validate_data current_time condition actual_value =
     (let condition_type = dict_get condition ''type'' in
      if condition_type = PStr ''equal'' then
        Inr (PStr actual_value = dict_get condition ''expected'')
      else if condition_type = PStr ''between'' then
        (case to_int (dict_get_default condition ''low'' (PInt 0)) of
           Inl e \<Rightarrow> Inl e
         | Inr low \<Rightarrow>
             (case to_int (dict_get_default condition ''high'' (PInt 0)) of
                Inl e \<Rightarrow> Inl e
              | Inr high \<Rightarrow>
                  (case py_int actual_value of
                     None \<Rightarrow> Inr False
                   | Some v \<Rightarrow> Inr (low \<le> v \<and> v \<le> high))))
      else if condition_type = PStr ''valid timestamp'' then
        Inr (is_valid_timestamp current_time actual_value)
      else if condition_type = PStr ''valid format_mac'' then
        Inr (is_valid_mac_address actual_value)
      else if condition_type = PStr ''valid format_rcode'' then
        Inr (is_valid_rcode actual_value)
      else if condition_type \<in> set deferred_types then Inr True
      else Inr False)"

section \<open>Test results and the judge\<close>

record TestResult =
  step_name :: string
  command_id :: string
  title :: string
  command_sent :: string
  prefix :: string
  actual_value :: "string option"
  expected_value :: pyval
  result :: string
  duration :: rat
  timestamp :: rat
  error_message :: "string option"

text \<open>
  An entry of the command library. \<^verbatim>\<open>Command_Sends\<close>, \<^verbatim>\<open>Title\<close> and \<^verbatim>\<open>ID\<close> are read with
  \<^verbatim>\<open>entry[key]\<close>; \<^verbatim>\<open>Response_Expectation\<close> and \<^verbatim>\<open>Condition\<close> are read with \<^verbatim>\<open>get\<close> and
  may be missing.
\<close>

record command_entry =
  Command_Sends :: string
  Title :: string
  ID :: string
  Response_Expectation :: "string option"
  Condition :: "pydict option"

definition expected_key :: "(string \<times> string) list" where
  "expected_key = [(''Get_SN_Number'', ''device_sn''), (''Get_FW_Version'', ''fw_version''),
                   (''Get_LCM_Version'', ''sw_version''), (''Get_WiFi_Version'', ''wifi_version'')]"

definition get_expected_value :: "pydict \<Rightarrow> string \<Rightarrow> pyval" where
  "get_expected_value user_inputs cid =
     (case map_of expected_key cid of
        None \<Rightarrow> PNone
      | Some key \<Rightarrow> if key \<noteq> [] then dict_get user_inputs key else PNone)"

text \<open>\<^verbatim>\<open>command_entry.get("Response_Expectation", "")\<close> and \<^verbatim>\<open>command_entry.get("Condition", {})\<close>.\<close>

definition expectation :: "command_entry \<Rightarrow> string" where
  "expectation entry = (case Response_Expectation entry of None \<Rightarrow> [] | Some s \<Rightarrow> s)"

definition condition_of :: "command_entry \<Rightarrow> pydict" where
  "condition_of entry = (case Condition entry of None \<Rightarrow> Map.empty | Some c \<Rightarrow> c)"

definition quoted :: "string \<Rightarrow> string" where
  "quoted s = CHR 0x27 # s @ [CHR 0x27]"

text \<open>\<^verbatim>\<open>if not response\<close> and \<^verbatim>\<open>if actual_value\<close>: \<open>None\<close> and the empty string are false.\<close>

fun present :: "string option \<Rightarrow> bool" where
  "present None = False"
| "present (Some s) = (s \<noteq> [])"

text \<open>
  \<^verbatim>\<open>judge_response\<close>. \<open>current_time\<close> and \<open>now\<close> are the two clock readings it takes (the
  one of the timestamp check, the one stored in the result). The assignment
  \<^verbatim>\<open>condition["expected"] = expected\<close> writes into the library's own dictionary; the
  value written depends on the entry's \<^verbatim>\<open>ID\<close> and the user inputs only and is written
  again before every later validation of the same entry, so the model keeps it local.
\<close>

definition judge_response ::
  "pydict \<Rightarrow> int \<Rightarrow> rat \<Rightarrow> string \<Rightarrow> string \<Rightarrow> string \<Rightarrow> string \<Rightarrow> command_entry \<Rightarrow>
   string option \<Rightarrow> rat \<Rightarrow> exc + TestResult" where
  "judge_response user_inputs current_time now stepname cid ttl cmd entry response dur =
     (let res0 = \<lparr>step_name = stepname, command_id = cid, title = ttl, command_sent = cmd,
                  prefix = [], actual_value = Some [], expected_value = PNone,
                  result = ''Fail'', duration = dur, timestamp = now, error_message = None\<rparr>
      in
      if \<not> present response then Inr (res0\<lparr>error_message := Some ''No response received''\<rparr>)
      else
        let (pre, actual) = classify_data (the response);
            res1 = res0\<lparr>prefix := pre, actual_value := actual\<rparr>;
            response_expectation = expectation entry
        in
        if pre \<noteq> response_expectation then
          Inr (res1\<lparr>result := ''Fail'',
                    error_message := Some (''Prefix mismatch: expected '' @ quoted response_expectation
                                           @ '', got '' @ quoted pre)\<rparr>)
        else
          let condition = condition_of entry;
              condition_type = dict_get condition ''type''
          in
          if condition_type \<in> set deferred_types then
            Inr (res1\<lparr>result := ''Pass'',
                      expected_value := dict_get_default condition ''status'' (PStr ''N/A'')\<rparr>)
          else if present actual then
            let expected = get_expected_value user_inputs cid;
                res2 = (if truthy expected then res1\<lparr>expected_value := expected\<rparr> else res1);
                condition2 = (if truthy expected then condition(''expected'' \<mapsto> expected) else condition)
            in
            (case validate_data current_time condition2 (the actual) of
               Inl e \<Rightarrow> Inl e
             | Inr is_valid \<Rightarrow>
                 if is_valid then Inr (res2\<lparr>result := ''Pass''\<rparr>)
                 else Inr (res2\<lparr>result := ''Fail'',
                                error_message := Some (''Validation failed: expected ''
                                   @ quoted (py_str expected) @ '', got '' @ quoted (the actual))\<rparr>))
          else Inr (res1\<lparr>result := ''Pass''\<rparr>))"

section \<open>State manager\<close>

datatype TestState = IDLE | INITIALIZING | RUNNING | PAUSED | COMPLETED | FAILED | STOPPED

text \<open>
  \<open>lock_held\<close> is the state of \<^verbatim>\<open>self._lock\<close>, a \<^verbatim>\<open>threading.Lock\<close>. \<open>transitions\<close> is
  what the registered state callbacks have been told, oldest first: \<^verbatim>\<open>set_state\<close> calls
  each of them with the old and the new state and catches what they raise.
\<close>

record manager =
  current_state :: TestState
  current_test_plan :: "string option"
  test_results :: "TestResult list"
  start_time :: "rat option"
  end_time :: "rat option"
  lock_held :: bool
  transitions :: "(TestState \<times> TestState) list"
  total_tests :: nat
  passed_tests :: nat
  failed_tests :: nat
  skipped_tests :: nat

text \<open>\<^verbatim>\<open>TestStateManager.__init__\<close>.\<close>

definition new_manager :: manager where
  "new_manager = \<lparr>current_state = IDLE, current_test_plan = None, test_results = [],
                   start_time = None, end_time = None, lock_held = False, transitions = [],
                   total_tests = 0, passed_tests = 0, failed_tests = 0, skipped_tests = 0\<rparr>"

text \<open>
  A call returns a value, raises, or never returns: \<open>Blocks\<close> is a thread waiting for a
  lock that nobody will release. Each outcome carries the state the call leaves behind.
\<close>

datatype ('a, 's) outcome = Returns 'a 's | Raises exc 's | Blocks 's

fun state_of :: "('a, 's) outcome \<Rightarrow> 's" where
  "state_of (Returns a s) = s"
| "state_of (Raises e s) = s"
| "state_of (Blocks s) = s"

fun and_then :: "('a, 's) outcome \<Rightarrow> ('a \<Rightarrow> 's \<Rightarrow> ('b, 's) outcome) \<Rightarrow> ('b, 's) outcome" where
  "and_then (Returns a s) f = f a s"
| "and_then (Raises e s) f = Raises e s"
| "and_then (Blocks s) f = Blocks s"

text \<open>
  \<^verbatim>\<open>with self._lock:\<close>. A \<^verbatim>\<open>threading.Lock\<close> is not reentrant: acquiring it while it is
  held waits until it is released, and the state manager is used by the runner's thread
  only, so a held lock is held by the caller itself and the wait never ends. The lock is
  released when the body returns or raises.
\<close>

definition with_lock :: "(manager \<Rightarrow> ('a, manager) outcome) \<Rightarrow> manager \<Rightarrow> ('a, manager) outcome" where
  "with_lock body m =
     (if lock_held m then Blocks m
      else case body (m\<lparr>lock_held := True\<rparr>) of
             Returns a m' \<Rightarrow> Returns a (m'\<lparr>lock_held := False\<rparr>)
           | Raises e m' \<Rightarrow> Raises e (m'\<lparr>lock_held := False\<rparr>)
           | Blocks m' \<Rightarrow> Blocks m')"

definition set_state :: "TestState \<Rightarrow> manager \<Rightarrow> (unit, manager) outcome" where
  "set_state new_state =
     with_lock (\<lambda>m. Returns () (m\<lparr>current_state := new_state,
                                   transitions := transitions m @ [(current_state m, new_state)]\<rparr>))"

definition get_state :: "manager \<Rightarrow> (TestState, manager) outcome" where
  "get_state = with_lock (\<lambda>m. Returns (current_state m) m)"

definition start_test :: "string \<Rightarrow> rat \<Rightarrow> manager \<Rightarrow> (unit, manager) outcome" where
  "start_test test_plan now =
     with_lock (\<lambda>m. set_state RUNNING
                      (m\<lparr>current_test_plan := Some test_plan, start_time := Some now,
                         test_results := [], total_tests := 0, passed_tests := 0,
                         failed_tests := 0, skipped_tests := 0\<rparr>))"

definition complete_test :: "rat \<Rightarrow> manager \<Rightarrow> (unit, manager) outcome" where
  "complete_test now = with_lock (\<lambda>m. set_state COMPLETED (m\<lparr>end_time := Some now\<rparr>))"

text \<open>The message of \<^verbatim>\<open>fail_test\<close> goes to the log only.\<close>

definition fail_test :: "string \<Rightarrow> rat \<Rightarrow> manager \<Rightarrow> (unit, manager) outcome" where
  "fail_test message now = with_lock (\<lambda>m. set_state FAILED (m\<lparr>end_time := Some now\<rparr>))"

definition add_result :: "TestResult \<Rightarrow> manager \<Rightarrow> (unit, manager) outcome" where
  "add_result r =
     with_lock (\<lambda>m.
       let m1 = m\<lparr>test_results := test_results m @ [r], total_tests := total_tests m + 1\<rparr>
       in Returns ()
            (if result r = ''Pass'' then m1\<lparr>passed_tests := passed_tests m1 + 1\<rparr>
             else if result r = ''Fail'' then m1\<lparr>failed_tests := failed_tests m1 + 1\<rparr>
             else m1\<lparr>skipped_tests := skipped_tests m1 + 1\<rparr>))"

text \<open>A time is false in \<^verbatim>\<open>if self.start_time\<close> when it is \<open>None\<close> or zero.\<close>

fun time_set :: "rat option \<Rightarrow> bool" where
  "time_set None = False"
| "time_set (Some t) = (t \<noteq> 0)"

definition get_duration :: "rat \<Rightarrow> manager \<Rightarrow> (rat, manager) outcome" where
  "get_duration now =
     with_lock (\<lambda>m.
       if time_set (start_time m) \<and> time_set (end_time m)
       then Returns (the (end_time m) - the (start_time m)) m
       else if time_set (start_time m) then Returns (now - the (start_time m)) m
       else Returns 0 m)"

record statistics =
  stat_test_plan :: "string option"
  stat_state :: TestState
  stat_total :: nat
  stat_passed :: nat
  stat_failed :: nat
  stat_skipped :: nat
  stat_pass_rate :: rat
  stat_duration :: rat

text \<open>
  The pass rate that \<^verbatim>\<open>get_statistics\<close> computes; the division of Python is taken as
  exact.
\<close>

definition pass_rate :: "manager \<Rightarrow> rat" where
  "pass_rate m =
     (if 0 < total_tests m then of_nat (passed_tests m) / of_nat (total_tests m) * 100 else 0)"

text \<open>
  \<^verbatim>\<open>get_statistics\<close> calls \<^verbatim>\<open>get_duration\<close> inside its own \<^verbatim>\<open>with self._lock\<close>. (The two
  formatted time strings of the dictionary are left out.)
\<close>

definition get_statistics :: "rat \<Rightarrow> manager \<Rightarrow> (statistics, manager) outcome" where
  "get_statistics now =
     with_lock (\<lambda>m.
       and_then (get_duration now m) (\<lambda>d m1.
         Returns \<lparr>stat_test_plan = current_test_plan m1, stat_state = current_state m1,
                  stat_total = total_tests m1, stat_passed = passed_tests m1,
                  stat_failed = failed_tests m1, stat_skipped = skipped_tests m1,
                  stat_pass_rate = pass_rate m1, stat_duration = d\<rparr> m1))"

definition get_failed_tests :: "manager \<Rightarrow> (TestResult list, manager) outcome" where
  "get_failed_tests = with_lock (\<lambda>m. Returns (filter (\<lambda>r. result r = ''Fail'') (test_results m)) m)"

definition get_passed_tests :: "manager \<Rightarrow> (TestResult list, manager) outcome" where
  "get_passed_tests = with_lock (\<lambda>m. Returns (filter (\<lambda>r. result r = ''Pass'') (test_results m)) m)"

section \<open>UART communicator\<close>

text \<open>
  What the serial port does during one call of \<^verbatim>\<open>send_command\<close>: whether opening it and
  writing to it raise, the value of \<^verbatim>\<open>ser.in_waiting\<close> when the settle delay of 0.5 s is
  over, and what \<^verbatim>\<open>ser.readline().decode('utf-8')\<close> would deliver within the port's timeout:
  a text, or the exception of the read or of the decoding.
\<close>

record port =
  open_port :: "exc option"
  write_port :: "exc option"
  in_waiting :: "exc + nat"
  readline :: "exc + string"

text \<open>The body of the \<^verbatim>\<open>try\<close> in \<^verbatim>\<open>send_command\<close>.\<close>

definition send_command_body :: "port \<Rightarrow> string \<Rightarrow> exc + string option" where
  "send_command_body ser command =
     (case open_port ser of
        Some e \<Rightarrow> Inl e
      | None \<Rightarrow>
          (case write_port ser of
             Some e \<Rightarrow> Inl e
           | None \<Rightarrow>
               (case in_waiting ser of
                  Inl e \<Rightarrow> Inl e
                | Inr n \<Rightarrow>
                    if 0 < n then
                      (case readline ser of
                         Inl e \<Rightarrow> Inl e
                       | Inr line \<Rightarrow> Inr (Some (strip line)))
                    else Inr None)))"

text \<open>
  \<^verbatim>\<open>send_command\<close>: the handler of \<^verbatim>\<open>serial.SerialException\<close> and the handler of
  \<^verbatim>\<open>Exception\<close> both log and return \<open>None\<close>.
\<close>

definition send_command :: "port \<Rightarrow> string \<Rightarrow> exc + string option" where
  "send_command ser command =
     (case send_command_body ser command of
        Inl SerialException \<Rightarrow> Inr None
      | Inl e \<Rightarrow> Inr None
      | Inr response \<Rightarrow> Inr response)"

section \<open>Test runner\<close>

text \<open>
  What the runner is given. A step of a test plan is a YAML mapping, kept as the list of
  its items in order. \<open>stop_event n\<close> is what the \<open>n\<close>-th call of \<^verbatim>\<open>stop_event.is_set()\<close> by
  the runner returns (the event is set by other threads). For the \<open>n\<close>-th command sent,
  \<open>uart n\<close> is the behaviour of the port, \<open>elapsed n\<close> the measured duration, \<open>judged n\<close>
  and \<open>epoch n\<close> the clock readings of the judge. \<open>started\<close> and \<open>ended\<close> are the readings
  of \<^verbatim>\<open>time.time()\<close> in the state manager.
\<close>

record env =
  test_cases :: "string \<rightharpoonup> (string \<times> pyval) list list"
  command_library :: "int \<rightharpoonup> command_entry"
  user_inputs :: pydict
  stop_event :: "nat \<Rightarrow> bool"
  uart :: "nat \<Rightarrow> string \<Rightarrow> port"
  elapsed :: "nat \<Rightarrow> rat"
  judged :: "nat \<Rightarrow> rat"
  epoch :: "nat \<Rightarrow> int"
  started :: rat
  ended :: rat

text \<open>
  The runner's state: its state manager, the commands handed to \<^verbatim>\<open>send_command\<close> so far,
  and how often the stop event has been read.
\<close>

record world =
  mgr :: manager
  send_calls :: "string list"
  stop_reads :: nat

definition on_mgr :: "(manager \<Rightarrow> ('a, manager) outcome) \<Rightarrow> world \<Rightarrow> ('a, world) outcome" where
  "on_mgr f w =
     (case f (mgr w) of
        Returns a m \<Rightarrow> Returns a (w\<lparr>mgr := m\<rparr>)
      | Raises e m \<Rightarrow> Raises e (w\<lparr>mgr := m\<rparr>)
      | Blocks m \<Rightarrow> Blocks (w\<lparr>mgr := m\<rparr>))"

text \<open>\<^verbatim>\<open>self.uart.send_command(command)\<close>, as the runner calls it.\<close>

definition transport :: "env \<Rightarrow> world \<Rightarrow> string \<Rightarrow> exc + string option" where
  "transport e w command = send_command (uart e (length (send_calls w)) command) command"

text \<open>
  \<^verbatim>\<open>run_test_task\<close>. The command number arrives as a string and goes through \<^verbatim>\<open>int()\<close>.
  An entry of the library is a record here, so \<^verbatim>\<open>if not command_entry\<close> is the test for
  a missing entry.
\<close>

definition run_test_task :: "env \<Rightarrow> string \<Rightarrow> string \<Rightarrow> world \<Rightarrow> (TestResult option, world) outcome" where
  "run_test_task e stepname command_number w =
     (let stopped = stop_event e (stop_reads w);
          w1 = w\<lparr>stop_reads := Suc (stop_reads w)\<rparr>
      in
      if stopped then Returns None w1
      else
        case py_int command_number of
          None \<Rightarrow> Raises ValueError w1
        | Some key \<Rightarrow>
            (case command_library e key of
               None \<Rightarrow> Returns None w1
             | Some entry \<Rightarrow>
                 let command = Command_Sends entry;
                     n = length (send_calls w1);
                     w2 = w1\<lparr>send_calls := send_calls w1 @ [command]\<rparr>
                 in
                 (case transport e w1 command of
                    Inl x \<Rightarrow> Raises x w2
                  | Inr response \<Rightarrow>
                      (case judge_response (user_inputs e) (epoch e n) (judged e n) stepname
                              (ID entry) (Title entry) command entry response (elapsed e n) of
                         Inl x \<Rightarrow> Raises x w2
                       | Inr r \<Rightarrow> Returns (Some r) w2))))"

text \<open>
  The inner loop of \<^verbatim>\<open>run_test_case\<close> over the items of one step. A \<^verbatim>\<open>TestResult\<close> is an
  object without \<^verbatim>\<open>__bool__\<close> or \<^verbatim>\<open>__len__\<close>, so \<^verbatim>\<open>if result\<close> is the test for \<open>None\<close>.
\<close>

fun run_items :: "env \<Rightarrow> (string \<times> pyval) list \<Rightarrow> world \<Rightarrow> (unit, world) outcome" where
  "run_items e [] w = Returns () w"
| "run_items e ((stepname, command_number) # items) w =
     (if command_number = PNone then run_items e items w
      else
        and_then (run_test_task e stepname (py_str command_number) w) (\<lambda>r w1.
          case r of
            None \<Rightarrow> run_items e items w1
          | Some res \<Rightarrow> and_then (on_mgr (add_result res) w1) (\<lambda>_. run_items e items)))"

text \<open>The outer loop: \<^verbatim>\<open>for step in steps\<close>, left by \<^verbatim>\<open>break\<close> when the stop event is set.\<close>

fun run_steps :: "env \<Rightarrow> (string \<times> pyval) list list \<Rightarrow> world \<Rightarrow> (unit, world) outcome" where
  "run_steps e [] w = Returns () w"
| "run_steps e (step # steps) w =
     (let stopped = stop_event e (stop_reads w);
          w1 = w\<lparr>stop_reads := Suc (stop_reads w)\<rparr>
      in
      if stopped then on_mgr (set_state STOPPED) w1
      else and_then (run_items e step w1) (\<lambda>_. run_steps e steps))"

text \<open>
  \<^verbatim>\<open>generate_final_reports\<close> reads the statistics and the failed tests and writes the
  report files (the files are not modelled).
\<close>

definition generate_final_reports :: "env \<Rightarrow> world \<Rightarrow> (unit, world) outcome" where
  "generate_final_reports e w =
     and_then (on_mgr (get_statistics (ended e)) w) (\<lambda>stats w1.
       and_then (on_mgr get_failed_tests w1) (\<lambda>failed w2. Returns () w2))"

text \<open>
  The \<^verbatim>\<open>try\<close> of \<^verbatim>\<open>run_test_case\<close>: the loop, then \<^verbatim>\<open>complete_test\<close> unless the stop event
  is set; the handler calls \<^verbatim>\<open>fail_test\<close> and raises again.
\<close>

definition run_guarded :: "env \<Rightarrow> (string \<times> pyval) list list \<Rightarrow> world \<Rightarrow> (unit, world) outcome" where
  "run_guarded e steps w =
     (case and_then (run_steps e steps w) (\<lambda>_ w1.
             let stopped = stop_event e (stop_reads w1);
                 w2 = w1\<lparr>stop_reads := Suc (stop_reads w1)\<rparr>
             in if \<not> stopped then on_mgr (complete_test (ended e)) w2 else Returns () w2) of
        Raises x w3 \<Rightarrow> and_then (on_mgr (fail_test ''error'' (ended e)) w3) (\<lambda>_. Raises x)
      | other \<Rightarrow> other)"

text \<open>
  \<^verbatim>\<open>run_test_case\<close>. Between the two checks of the plan and \<^verbatim>\<open>start_test\<close> the source
  writes the header of the report file, which is not modelled.
\<close>

definition run_test_case :: "env \<Rightarrow> string \<Rightarrow> world \<Rightarrow> (unit, world) outcome" where
  "run_test_case e test_plan w =
     (case test_cases e test_plan of
        None \<Rightarrow> on_mgr (fail_test (''No test cases defined for: '' @ test_plan) (ended e)) w
      | Some steps \<Rightarrow>
          if steps = [] then on_mgr (fail_test (''No steps found for: '' @ test_plan) (ended e)) w
          else
            and_then (on_mgr (start_test test_plan (started e)) w) (\<lambda>_ w1.
              and_then (run_guarded e steps w1) (\<lambda>_. generate_final_reports e)))"

text \<open>\<^verbatim>\<open>TestRunner.__init__\<close> creates the state manager; nothing is sent or read yet.\<close>

definition new_world :: world where
  "new_world = \<lparr>mgr = new_manager, send_calls = [], stop_reads = 0\<rparr>"

section \<open>Notions used to state the properties\<close>

text \<open>
  An item of a step that the runner executes when the stop event is clear: its command
  number is not \<open>None\<close>, converts to an integer, and has an entry in the library.
  \<open>command_of\<close> is the command text of such an item.
\<close>

definition executes :: "env \<Rightarrow> string \<times> pyval \<Rightarrow> bool" where
  "executes e item =
     (snd item \<noteq> PNone \<and>
      (case py_int (py_str (snd item)) of
         None \<Rightarrow> False
       | Some key \<Rightarrow> command_library e key \<noteq> None))"

definition command_of :: "env \<Rightarrow> string \<times> pyval \<Rightarrow> string" where
  "command_of e item = Command_Sends (the (command_library e (the (py_int (py_str (snd item))))))"

text \<open>
  \<open>quiet e a b\<close>: the readings \<open>a\<close> up to \<open>b - 1\<close> of the stop event find it clear.
\<close>

definition quiet :: "env \<Rightarrow> nat \<Rightarrow> nat \<Rightarrow> bool" where
  "quiet e a b = list_all (\<lambda>n. \<not> stop_event e n) [a..<b]"

text \<open>The number that a string of decimal digits denotes.\<close>

definition decimal :: "string \<Rightarrow> nat" where
  "decimal ds = foldl (\<lambda>acc c. 10 * acc + digit_val c) 0 ds"

section \<open>Example data\<close>

definition sn_entry :: command_entry where
  "sn_entry = \<lparr>Command_Sends = ''get_sn'', Title = ''Serial number'', ID = ''Get_SN_Number'',
                Response_Expectation = Some ''[sn+ok]'',
                Condition = Some [''type'' \<mapsto> PStr ''equal'']\<rparr>"

definition pressure_entry :: command_entry where
  "pressure_entry = \<lparr>Command_Sends = ''get_pressure'', Title = ''Pressure'', ID = ''Get_Pressure'',
                      Response_Expectation = Some ''[pressure+ok]'',
                      Condition = Some [''type'' \<mapsto> PStr ''between'', ''low'' \<mapsto> PInt 10,
                                        ''high'' \<mapsto> PInt 20]\<rparr>"

text \<open>A port on which the reply is waiting when the settle delay is over.\<close>

definition replying :: "string \<Rightarrow> port" where
  "replying line = \<lparr>open_port = None, write_port = None, in_waiting = Inr (length line),
                     readline = Inr line\<rparr>"

text \<open>A port on which nothing arrives.\<close>

definition silent :: port where
  "silent = \<lparr>open_port = None, write_port = None, in_waiting = Inr 0, readline = Inr []\<rparr>"

text \<open>
  A device that answers \<^verbatim>\<open>get_sn\<close> with the user's serial number, \<^verbatim>\<open>get_pressure\<close> with an
  unexpected prefix, and nothing else; the stop event is set from its \<open>k\<close>-th reading on.
\<close>

definition bench :: "nat \<Rightarrow> env" where
  "bench k = \<lparr>test_cases = [''Smoke'' \<mapsto> [[(''Step1'', PInt 1)], [(''Step2'', PInt 2)],
                                            [(''Step3'', PInt 1)], [(''Step4'', PInt 3)],
                                            [(''Step5'', PInt 2)]],
                             ''Gap'' \<mapsto> [[(''Step1'', PInt 9)], [(''Step2'', PInt 1)]]],
              command_library = [1 \<mapsto> sn_entry, 2 \<mapsto> pressure_entry,
                                 3 \<mapsto> sn_entry\<lparr>Command_Sends := ''get_nothing''\<rparr>],
              user_inputs = [''selected_test_plan'' \<mapsto> PStr ''Smoke'',
                             ''device_sn'' \<mapsto> PStr ''SN00000000017'',
                             ''fw_version'' \<mapsto> PStr ''1.0'', ''sw_version'' \<mapsto> PStr ''2.0'',
                             ''wifi_version'' \<mapsto> PStr ''3.0''],
              stop_event = (\<lambda>n. k \<le> n),
              uart = (\<lambda>n command.
                        if command = ''get_sn'' then replying ''[sn+ok] SN00000000017''
                        else if command = ''get_pressure'' then replying ''[error] 15''
                        else silent),
              elapsed = (\<lambda>n. 3 / 2),
              judged = (\<lambda>n. 1000 + of_nat n),
              epoch = (\<lambda>n. 1000 + int n),
              started = 990,
              ended = 1010\<rparr>"

text \<open>Sample results, and a state manager that has been given three passes and one failure.\<close>

definition sample_result :: "string \<Rightarrow> string \<Rightarrow> TestResult" where
  "sample_result stepname outcome =
     \<lparr>step_name = stepname, command_id = ''Get_SN_Number'', title = ''Serial number'',
      command_sent = ''get_sn'', prefix = ''[sn+ok]'', actual_value = Some ''SN00000000017'',
      expected_value = PStr ''SN00000000017'', result = outcome, duration = 3 / 2,
      timestamp = 1000, error_message = None\<rparr>"

definition tallied :: manager where
  "tallied =
     state_of (add_result (sample_result ''Step4'' ''Fail'')
       (state_of (add_result (sample_result ''Step3'' ''Pass'')
         (state_of (add_result (sample_result ''Step2'' ''Pass'')
           (state_of (add_result (sample_result ''Step1'' ''Pass'') new_manager)))))))"

section \<open>Basic facts\<close>

lemma split_at_space:
  assumes "CHR '' '' \<in> set raw"
  shows "takeWhile (\<lambda>c. c \<noteq> CHR '' '') raw @ '' '' @ tl (dropWhile (\<lambda>c. c \<noteq> CHR '' '') raw) = raw"
using assms proof (induction raw)
  case Nil
  then show ?case by simp
next
  case (Cons c cs)
  then show ?case by (cases "c = CHR '' ''") auto
qed

lemma with_lock_free:
  "\<not> lock_held m \<Longrightarrow> with_lock body m =
     (case body (m\<lparr>lock_held := True\<rparr>) of
             Returns a m' \<Rightarrow> Returns a (m'\<lparr>lock_held := False\<rparr>)
           | Raises e m' \<Rightarrow> Raises e (m'\<lparr>lock_held := False\<rparr>)
           | Blocks m' \<Rightarrow> Blocks m')"
  by (simp add: with_lock_def)

lemma with_lock_held: "lock_held m \<Longrightarrow> with_lock body m = Blocks m"
  by (simp add: with_lock_def)

lemma set_state_free:
  "\<not> lock_held m \<Longrightarrow> set_state s m =
     Returns () (m\<lparr>current_state := s, transitions := transitions m @ [(current_state m, s)]\<rparr>)"
  by (cases m) (simp add: set_state_def with_lock_free)

lemma set_state_held: "lock_held m \<Longrightarrow> set_state s m = Blocks m"
  by (simp add: set_state_def with_lock_held)


lemma add_result_pass:
  "\<not> lock_held m \<Longrightarrow> result r = ''Pass'' \<Longrightarrow> add_result r m =
     Returns () (m\<lparr>test_results := test_results m @ [r], total_tests := total_tests m + 1,
                    passed_tests := passed_tests m + 1\<rparr>)"
  by (cases m) (simp add: add_result_def with_lock_free Let_def)

lemma transport_reads [simp]: "transport e (w\<lparr>stop_reads := k\<rparr>) command = transport e w command"
  by (simp add: transport_def)





lemma judge_no_value:
  "reply \<noteq> [] \<Longrightarrow> fst (classify_data reply) = expectation entry \<Longrightarrow>
   \<not> present (snd (classify_data reply)) \<Longrightarrow>
   dict_get (condition_of entry) ''type'' \<notin> set deferred_types \<Longrightarrow>
   judge_response ui t now stepname cid ttl cmd entry (Some reply) dur =
     Inr \<lparr>step_name = stepname, command_id = cid, title = ttl, command_sent = cmd,
          prefix = fst (classify_data reply),
          actual_value = snd (classify_data reply), expected_value = PNone,
          result = ''Pass'', duration = dur, timestamp = now,
          error_message = None\<rparr>"
  by (cases "classify_data reply") (simp add: judge_response_def Let_def)

lemma start_test_blocks:
  "\<not> lock_held m \<Longrightarrow> start_test test_plan now m =
     Blocks (m\<lparr>current_test_plan := Some test_plan, start_time := Some now, test_results := [],
               lock_held := True, total_tests := 0, passed_tests := 0, failed_tests := 0,
               skipped_tests := 0\<rparr>)"
  by (cases m) (simp add: start_test_def with_lock_free set_state_held)

lemma fail_test_blocks:
  "\<not> lock_held m \<Longrightarrow> fail_test message now m = Blocks (m\<lparr>end_time := Some now, lock_held := True\<rparr>)"
  by (cases m) (simp add: fail_test_def with_lock_free set_state_held)

lemma complete_test_blocks:
  "\<not> lock_held m \<Longrightarrow> complete_test now m = Blocks (m\<lparr>end_time := Some now, lock_held := True\<rparr>)"
  by (cases m) (simp add: complete_test_def with_lock_free set_state_held)

lemma get_statistics_never_returns:
  "get_statistics now m = Blocks (m\<lparr>lock_held := True\<rparr>)"
  by (cases "lock_held m")
     (simp_all add: get_statistics_def with_lock_free get_duration_def with_lock_held)

text \<open>
  Every path of \<^verbatim>\<open>run_test_case\<close> acquires the lock twice: in \<^verbatim>\<open>fail_test\<close> when the plan
  is unknown or empty, in \<^verbatim>\<open>start_test\<close> otherwise. Called on a runner whose lock is free
  it waits for ever, before the first step.
\<close>

lemma run_test_case_blocks:
  "\<not> lock_held (mgr w) \<Longrightarrow> \<exists>w'. run_test_case e test_plan w = Blocks w' \<and> send_calls w' = send_calls w"
  by (simp add: run_test_case_def on_mgr_def start_test_blocks fail_test_blocks
           split: option.splits)

section \<open>The integers that \<^verbatim>\<open>int()\<close> reads\<close>

text \<open>
  \<^verbatim>\<open>int(str(i))\<close> is \<open>i\<close>, for an integer within the limit on the number of digits.
\<close>

lemma digit_char_cases:
  assumes "d < 10"
  shows "is_digit (digit_char d) \<and> digit_val (digit_char d) = d"
proof -
  have "list_all (\<lambda>d. is_digit (digit_char d) \<and> digit_val (digit_char d) = d) [0..<10]"
    by code_simp
  with assms show ?thesis by (simp add: list_all_iff)
qed

lemma is_digit_not_space: "is_digit c \<Longrightarrow> \<not> is_int_space c \<and> c \<noteq> CHR ''-'' \<and> c \<noteq> CHR ''+''"
  by (auto simp add: is_digit_def is_int_space_def)

lemma py_digits_all:
  "list_all is_digit ds \<Longrightarrow> py_digits ds acc = Some (foldl (\<lambda>acc c. 10 * acc + digit_val c) acc ds)"
  by (induction ds arbitrary: acc) simp_all

lemma nat_digits_digits: "list_all is_digit (nat_digits n) \<and> nat_digits n \<noteq> []"
proof (induction n rule: nat_digits.induct)
  case (1 n)
  show ?case
  proof (cases "n < 10")
    case True
    then show ?thesis by (simp add: nat_digits.simps [of n] digit_char_cases)
  next
    case False
    with 1 show ?thesis by (simp add: nat_digits.simps [of n] digit_char_cases)
  qed
qed

lemma decimal_nat_digits: "decimal (nat_digits n) = n"
proof (induction n rule: nat_digits.induct)
  case (1 n)
  show ?case
  proof (cases "n < 10")
    case True
    then show ?thesis by (simp add: nat_digits.simps [of n] decimal_def digit_char_cases)
  next
    case False
    with 1 have "decimal (nat_digits (n div 10)) = n div 10" by simp
    with False show ?thesis
      by (simp add: nat_digits.simps [of n] decimal_def digit_char_cases)
  qed
qed

lemma int_strip_id:
  assumes "s \<noteq> []" "\<not> is_int_space (hd s)" "\<not> is_int_space (last s)"
  shows "int_strip s = s"
proof -
  from assms have a: "dropWhile is_int_space s = s" by (cases s) simp_all
  from assms have "rev s \<noteq> []" "\<not> is_int_space (hd (rev s))" by (simp_all add: hd_rev)
  then have "dropWhile is_int_space (rev s) = rev s" by (cases "rev s") simp_all
  with a show ?thesis by (simp add: int_strip_def)
qed

lemma py_unsigned_nat_digits:
  assumes "length (nat_digits n) \<le> int_max_str_digits"
  shows "py_unsigned (nat_digits n) = Some n"
proof -
  note d = nat_digits_digits [of n]
  then obtain c cs where cs: "nat_digits n = c # cs" by (cases "nat_digits n") auto
  with d have c: "is_digit c" "list_all is_digit cs" by simp_all
  from d have "filter is_digit (nat_digits n) = nat_digits n"
    by (simp add: list_all_iff)
  with assms have "\<not> int_max_str_digits < length (filter is_digit (nat_digits n))" by simp
  moreover from decimal_nat_digits [of n] cs
  have "foldl (\<lambda>acc c. 10 * acc + digit_val c) (digit_val c) cs = n" by (simp add: decimal_def)
  ultimately show ?thesis using cs c by (simp add: py_unsigned_def py_digits_all)
qed

lemma py_int_int_str:
  assumes "length (nat_digits (nat \<bar>i\<bar>)) \<le> int_max_str_digits"
  shows "py_int (int_str i) = Some i"
proof (cases "i < 0")
  case True
  let ?ds = "nat_digits (nat (- i))"
  note d = nat_digits_digits [of "nat (- i)"]
  then have "is_digit (last ?ds)" by (simp add: list_all_iff)
  moreover have "\<not> is_int_space CHR ''-''" by (simp add: is_int_space_def)
  ultimately have "int_strip (CHR ''-'' # ?ds) = CHR ''-'' # ?ds"
    using d by (intro int_strip_id) (simp_all add: is_digit_not_space)
  moreover from assms True have "py_unsigned ?ds = Some (nat (- i))"
    by (intro py_unsigned_nat_digits) simp
  ultimately show ?thesis using True by (simp add: py_int_def int_str_def)
next
  case False
  let ?ds = "nat_digits (nat i)"
  note d = nat_digits_digits [of "nat i"]
  then obtain c cs where cs: "?ds = c # cs" by (cases ?ds) auto
  from d have "is_digit (hd ?ds)" "is_digit (last ?ds)" by (simp_all add: list_all_iff)
  then have s: "int_strip ?ds = ?ds"
    using d by (intro int_strip_id) (simp_all add: is_digit_not_space)
  from cs d have "is_digit c" by simp
  then have c: "c \<noteq> CHR ''-''" "c \<noteq> CHR ''+''" by (simp_all add: is_digit_not_space)
  from assms False have "py_unsigned ?ds = Some (nat i)"
    by (intro py_unsigned_nat_digits) simp
  with s cs c False show ?thesis by (simp add: py_int_def int_str_def)
qed

text \<open>
  What \<^verbatim>\<open>int()\<close> accepts is made of digits, underscores, a sign and the whitespace it
  skips, has at least one digit, and denotes, up to the sign, the number that its digits
  spell.
\<close>

lemma py_digits_sound:
  "py_digits cs acc = Some n \<Longrightarrow>
     list_all (\<lambda>c. is_digit c \<or> c = CHR ''_'') cs
     \<and> n = foldl (\<lambda>acc c. 10 * acc + digit_val c) acc (filter is_digit cs)"
proof (induction cs acc rule: py_digits.induct)
  case (1 acc)
  then show ?case by simp
next
  case (2 c cs acc)
  have u: "\<not> is_digit CHR ''_''" by (simp add: is_digit_def)
  show ?case
  proof (cases "is_digit c")
    case True
    with 2 show ?thesis by simp
  next
    case False
    with "2.prems" obtain d ds where cs: "c = CHR ''_''" "cs = d # ds" "is_digit d"
      "py_digits ds (10 * acc + digit_val d) = Some n"
      by (auto split: if_splits list.splits)
    with "2.IH"(2) [of d ds] False have
      "list_all (\<lambda>c. is_digit c \<or> c = CHR ''_'') ds
       \<and> n = foldl (\<lambda>acc c. 10 * acc + digit_val c) (10 * acc + digit_val d) (filter is_digit ds)"
      by simp
    with cs u show ?thesis by simp
  qed
qed

lemma py_unsigned_sound:
  assumes "py_unsigned body = Some n"
  shows "list_all (\<lambda>c. is_digit c \<or> c = CHR ''_'') body \<and> filter is_digit body \<noteq> []
       \<and> length (filter is_digit body) \<le> int_max_str_digits
       \<and> n = decimal (filter is_digit body)"
proof -
  from assms obtain d ds where b: "body = d # ds" "is_digit d" "py_digits ds (digit_val d) = Some n"
    and l: "length (filter is_digit body) \<le> int_max_str_digits"
    by (auto simp add: py_unsigned_def split: if_splits list.splits)
  from py_digits_sound [OF b(3)] b(1,2) l show ?thesis by (simp add: decimal_def)
qed

lemma dropWhile_all:
  "list_all Q (dropWhile sp s) \<Longrightarrow> list_all (\<lambda>c. Q c \<or> sp c) s"
  by (induction s) (auto split: if_splits simp add: list_all_iff)

lemma int_strip_all:
  assumes "list_all Q (int_strip s)"
  shows "list_all (\<lambda>c. Q c \<or> is_int_space c) s"
proof -
  from assms have "list_all Q (dropWhile is_int_space (rev (dropWhile is_int_space s)))"
    by (simp add: int_strip_def list_all_iff)
  then have "list_all (\<lambda>c. Q c \<or> is_int_space c) (rev (dropWhile is_int_space s))"
    by (rule dropWhile_all)
  then have "list_all (\<lambda>c. Q c \<or> is_int_space c) (dropWhile is_int_space s)"
    by (simp add: list_all_iff)
  then have "list_all (\<lambda>c. (Q c \<or> is_int_space c) \<or> is_int_space c) s"
    by (rule dropWhile_all)
  then show ?thesis by (simp add: list_all_iff)
qed

lemma filter_dropWhile_space:
  "filter is_digit (dropWhile is_int_space s) = filter is_digit s"
  by (induction s) (auto dest: is_digit_not_space)

lemma filter_int_strip: "filter is_digit (int_strip s) = filter is_digit s"
proof -
  have "filter is_digit (int_strip s) = rev (filter is_digit (dropWhile is_int_space (rev (dropWhile is_int_space s))))"
    by (simp add: int_strip_def rev_filter)
  also have "\<dots> = rev (filter is_digit (rev (dropWhile is_int_space s)))"
    by (simp only: filter_dropWhile_space)
  also have "\<dots> = filter is_digit (dropWhile is_int_space s)" by (simp add: rev_filter)
  finally show ?thesis by (simp add: filter_dropWhile_space)
qed

lemma py_int_sound:
  assumes "py_int s = Some v"
  shows "list_all (\<lambda>c. is_digit c \<or> c \<in> set ''_+-'' \<or> is_int_space c) s
       \<and> filter is_digit s \<noteq> []
       \<and> length (filter is_digit s) \<le> int_max_str_digits
       \<and> nat \<bar>v\<bar> = decimal (filter is_digit s)"
proof -
  have sg: "\<not> is_digit CHR ''-''" "\<not> is_digit CHR ''+''" by (simp_all add: is_digit_def)
  from assms obtain c cs where st: "int_strip s = c # cs" by (auto simp add: py_int_def split: list.splits)
  let ?Q = "\<lambda>c. is_digit c \<or> c \<in> set ''_+-''"
  have "list_all ?Q (int_strip s) \<and> filter is_digit (int_strip s) \<noteq> []
        \<and> length (filter is_digit (int_strip s)) \<le> int_max_str_digits
        \<and> nat \<bar>v\<bar> = decimal (filter is_digit (int_strip s))"
  proof (cases "c = CHR ''-'' \<or> c = CHR ''+''")
    case True
    with assms st obtain n where n: "py_unsigned cs = Some n" "nat \<bar>v\<bar> = n"
      by (auto simp add: py_int_def split: if_splits)
    from py_unsigned_sound [OF n(1)] n(2) st True sg show ?thesis
      by (auto simp add: list_all_iff)
  next
    case False
    with assms st obtain n where n: "py_unsigned (c # cs) = Some n" "nat \<bar>v\<bar> = n"
      by (auto simp add: py_int_def split: if_splits)
    from py_unsigned_sound [OF n(1)] n(2) st show ?thesis
      by (auto simp add: list_all_iff)
  qed
  then have a: "list_all ?Q (int_strip s)" and b: "filter is_digit s \<noteq> []"
    "length (filter is_digit s) \<le> int_max_str_digits"
    "nat \<bar>v\<bar> = decimal (filter is_digit s)"
    by (simp_all add: filter_int_strip)
  from int_strip_all [OF a] b show ?thesis by (simp add: list_all_iff)
qed

section \<open>The step loop\<close>

lemma and_then_Returns:
  "and_then x f = Returns b s' \<Longrightarrow> \<exists>a s. x = Returns a s \<and> f a s = Returns b s'"
  by (cases x) simp_all

lemma on_mgr_Returns:
  "on_mgr f w = Returns a w' \<Longrightarrow> \<exists>m. f (mgr w) = Returns a m \<and> w' = w\<lparr>mgr := m\<rparr>"
  by (auto simp add: on_mgr_def split: outcome.splits)

lemma with_lock_Returns:
  "with_lock body m = Returns a m' \<Longrightarrow>
     \<not> lock_held m \<and> (\<exists>m1. body (m\<lparr>lock_held := True\<rparr>) = Returns a m1 \<and> m' = m1\<lparr>lock_held := False\<rparr>)"
  by (auto simp add: with_lock_def split: if_splits outcome.splits)

lemma add_result_Returns:
  assumes "add_result r m = Returns u m'"
  shows "\<not> lock_held m \<and> \<not> lock_held m' \<and> test_results m' = test_results m @ [r]
         \<and> current_state m' = current_state m \<and> transitions m' = transitions m"
  using with_lock_Returns [OF assms [unfolded add_result_def]]
  by (auto simp add: Let_def split: if_splits)

lemma set_state_Returns:
  assumes "set_state s m = Returns u m'"
  shows "\<not> lock_held m \<and> m' = m\<lparr>current_state := s, transitions := transitions m @ [(current_state m, s)]\<rparr>"
  using with_lock_Returns [OF assms [unfolded set_state_def]]
  by (cases m) auto

lemma run_test_task_Returns:
  assumes "run_test_task e stepname c w = Returns r w1"
  shows "stop_reads w1 = Suc (stop_reads w) \<and> mgr w1 = mgr w
       \<and> (if stop_event e (stop_reads w) then r = None \<and> send_calls w1 = send_calls w
          else case py_int c of
                 None \<Rightarrow> False
               | Some key \<Rightarrow>
                   (case command_library e key of
                      None \<Rightarrow> r = None \<and> send_calls w1 = send_calls w
                    | Some entry \<Rightarrow> r \<noteq> None \<and> send_calls w1 = send_calls w @ [Command_Sends entry]))"
  using assms
  by (auto simp add: run_test_task_def Let_def split: if_splits option.splits sum.splits)

lemma quiet_sub: "quiet e a b \<Longrightarrow> a \<le> a' \<Longrightarrow> b' \<le> b \<Longrightarrow> quiet e a' b'"
  by (auto simp add: quiet_def list_all_iff)

lemma quiet_first: "quiet e a b \<Longrightarrow> a < b \<Longrightarrow> \<not> stop_event e a"
  by (auto simp add: quiet_def list_all_iff)

lemma run_items_frame:
  assumes "run_items e items w = Returns u w'"
  shows "stop_reads w \<le> stop_reads w' \<and> lock_held (mgr w') = lock_held (mgr w)
       \<and> current_state (mgr w') = current_state (mgr w)
       \<and> transitions (mgr w') = transitions (mgr w)"
  using assms
proof (induction items arbitrary: w)
  case Nil
  then show ?case by simp
next
  case (Cons item items)
  obtain stepname cn where item: "item = (stepname, cn)" by (cases item)
  show ?case
  proof (cases "cn = PNone")
    case True
    with Cons.prems item have "run_items e items w = Returns u w'" by simp
    then show ?thesis by (rule Cons.IH)
  next
    case False
    with Cons.prems item obtain r w1 where
      task: "run_test_task e stepname (py_str cn) w = Returns r w1" and
      rest: "(case r of None \<Rightarrow> run_items e items w1
              | Some res \<Rightarrow> and_then (on_mgr (add_result res) w1) (\<lambda>_. run_items e items)) = Returns u w'"
      by (auto dest: and_then_Returns)
    from run_test_task_Returns [OF task]
    have w1: "stop_reads w1 = Suc (stop_reads w)" "mgr w1 = mgr w" by simp_all
    show ?thesis
    proof (cases r)
      case None
      with rest have "run_items e items w1 = Returns u w'" by simp
      from Cons.IH [OF this] w1 show ?thesis by simp
    next
      case (Some res)
      with rest obtain w2 where
        add: "on_mgr (add_result res) w1 = Returns () w2" and
        tail: "run_items e items w2 = Returns u w'"
        by (auto dest: and_then_Returns)
      from on_mgr_Returns [OF add] obtain m where
        m: "add_result res (mgr w1) = Returns () m" "w2 = w1\<lparr>mgr := m\<rparr>" by blast
      from add_result_Returns [OF m(1)] m(2) w1
      have "stop_reads w2 = Suc (stop_reads w)" "lock_held (mgr w2) = lock_held (mgr w)"
        "current_state (mgr w2) = current_state (mgr w)" "transitions (mgr w2) = transitions (mgr w)"
        by simp_all
      with Cons.IH [OF tail] show ?thesis by simp
    qed
  qed
qed

lemma run_items_quiet:
  assumes "run_items e items w = Returns u w'"
    and "quiet e (stop_reads w) (stop_reads w')"
  shows "length (test_results (mgr w')) = length (test_results (mgr w)) + length (filter (executes e) items)
       \<and> send_calls w' = send_calls w @ map (command_of e) (filter (executes e) items)"
  using assms
proof (induction items arbitrary: w)
  case Nil
  then show ?case by simp
next
  case (Cons item items)
  obtain stepname cn where item: "item = (stepname, cn)" by (cases item)
  show ?case
  proof (cases "cn = PNone")
    case True
    with Cons.prems item have "run_items e items w = Returns u w'" by simp
    from Cons.IH [OF this Cons.prems(2)] True item show ?thesis by (simp add: executes_def)
  next
    case False
    with Cons.prems item obtain r w1 where
      task: "run_test_task e stepname (py_str cn) w = Returns r w1" and
      rest: "(case r of None \<Rightarrow> run_items e items w1
              | Some res \<Rightarrow> and_then (on_mgr (add_result res) w1) (\<lambda>_. run_items e items)) = Returns u w'"
      by (auto dest: and_then_Returns)
    note t = run_test_task_Returns [OF task]
    from t have w1: "stop_reads w1 = Suc (stop_reads w)" "mgr w1 = mgr w" by simp_all
    show ?thesis
    proof (cases r)
      case None
      with rest have tail: "run_items e items w1 = Returns u w'" by simp
      from run_items_frame [OF tail] w1 have le: "Suc (stop_reads w) \<le> stop_reads w'" by simp
      with Cons.prems(2) have clear: "\<not> stop_event e (stop_reads w)" by (auto dest: quiet_first)
      from Cons.prems(2) w1 have q: "quiet e (stop_reads w1) (stop_reads w')"
        by (auto intro: quiet_sub)
      from t clear None False have "\<not> executes e (stepname, cn)" "send_calls w1 = send_calls w"
        by (auto simp add: executes_def split: option.splits)
      with Cons.IH [OF tail q] w1 item show ?thesis by simp
    next
      case (Some res)
      with rest obtain w2 where
        add: "on_mgr (add_result res) w1 = Returns () w2" and
        tail: "run_items e items w2 = Returns u w'"
        by (auto dest: and_then_Returns)
      from on_mgr_Returns [OF add] obtain m where
        m: "add_result res (mgr w1) = Returns () m" "w2 = w1\<lparr>mgr := m\<rparr>" by blast
      from add_result_Returns [OF m(1)] m(2) w1
      have w2: "stop_reads w2 = Suc (stop_reads w)" "send_calls w2 = send_calls w1"
        "length (test_results (mgr w2)) = Suc (length (test_results (mgr w)))"
        by simp_all
      from Cons.prems(2) w2 have q: "quiet e (stop_reads w2) (stop_reads w')"
        by (auto intro: quiet_sub)
      from t Some False have "executes e (stepname, cn)"
        "send_calls w1 = send_calls w @ [command_of e (stepname, cn)]"
        by (auto simp add: executes_def command_of_def split: option.splits if_splits)
      with Cons.IH [OF tail q] w2 item show ?thesis by simp
    qed
  qed
qed

lemma run_steps_cases:
  assumes "run_steps e (step # steps) w = Returns u w'"
  obtains (stopped) "stop_event e (stop_reads w)"
      "w' = w\<lparr>mgr := (mgr w)\<lparr>current_state := STOPPED,
                 transitions := transitions (mgr w) @ [(current_state (mgr w), STOPPED)]\<rparr>,
              stop_reads := Suc (stop_reads w)\<rparr>"
      "\<not> lock_held (mgr w)"
    | (continued) w2 where "\<not> stop_event e (stop_reads w)"
      "run_items e step (w\<lparr>stop_reads := Suc (stop_reads w)\<rparr>) = Returns () w2"
      "run_steps e steps w2 = Returns u w'"
proof (cases "stop_event e (stop_reads w)")
  case True
  with assms have "on_mgr (set_state STOPPED) (w\<lparr>stop_reads := Suc (stop_reads w)\<rparr>) = Returns u w'"
    by simp
  from on_mgr_Returns [OF this] obtain m where
    m: "set_state STOPPED (mgr w) = Returns u m" "w' = w\<lparr>stop_reads := Suc (stop_reads w), mgr := m\<rparr>"
    by auto
  from set_state_Returns [OF m(1)] m(2) True show ?thesis
    by (intro stopped) (cases w, auto)+
next
  case False
  with assms obtain a w2 where
    "run_items e step (w\<lparr>stop_reads := Suc (stop_reads w)\<rparr>) = Returns a w2"
    "run_steps e steps w2 = Returns u w'"
    by (auto dest: and_then_Returns)
  with False show ?thesis by (intro continued) auto
qed

lemma run_steps_frame:
  assumes "run_steps e steps w = Returns u w'"
  shows "stop_reads w \<le> stop_reads w' \<and> (steps \<noteq> [] \<longrightarrow> stop_reads w < stop_reads w')
       \<and> lock_held (mgr w') = lock_held (mgr w)"
  using assms
proof (induction steps arbitrary: w)
  case Nil
  then show ?case by simp
next
  case (Cons step steps)
  from Cons.prems show ?case
  proof (cases rule: run_steps_cases)
    case stopped
    then show ?thesis by simp
  next
    case (continued w2)
    from run_items_frame [OF continued(2)] Cons.IH [OF continued(3)]
    show ?thesis by simp
  qed
qed

lemma run_steps_quiet:
  assumes "run_steps e steps w = Returns u w'"
    and "quiet e (stop_reads w) (stop_reads w')"
  shows "length (test_results (mgr w')) = length (test_results (mgr w)) + length (filter (executes e) (concat steps))
       \<and> send_calls w' = send_calls w @ map (command_of e) (filter (executes e) (concat steps))
       \<and> current_state (mgr w') = current_state (mgr w)"
  using assms
proof (induction steps arbitrary: w)
  case Nil
  then show ?case by simp
next
  case (Cons step steps)
  from Cons.prems(1) show ?case
  proof (cases rule: run_steps_cases)
    case stopped
    with Cons.prems(2) show ?thesis by (auto dest: quiet_first)
  next
    case (continued w2)
    note f1 = run_items_frame [OF continued(2)] and f2 = run_steps_frame [OF continued(3)]
    from Cons.prems(2) f1 f2
    have q1: "quiet e (stop_reads (w\<lparr>stop_reads := Suc (stop_reads w)\<rparr>)) (stop_reads w2)"
      and q2: "quiet e (stop_reads w2) (stop_reads w')"
      by (auto intro: quiet_sub)
    from run_items_quiet [OF continued(2) q1] Cons.IH [OF continued(3) q2] f1
    show ?thesis by simp
  qed
qed

lemma run_steps_append_quiet:
  assumes "run_steps e pre w = Returns u w'"
    and "quiet e (stop_reads w) (stop_reads w')"
  shows "run_steps e (pre @ rest) w = run_steps e rest w'"
  using assms
proof (induction pre arbitrary: w)
  case Nil
  then show ?case by simp
next
  case (Cons step pre)
  from Cons.prems(1) show ?case
  proof (cases rule: run_steps_cases)
    case stopped
    with Cons.prems(2) show ?thesis by (auto dest: quiet_first)
  next
    case (continued w2)
    note f1 = run_items_frame [OF continued(2)] and f2 = run_steps_frame [OF continued(3)]
    from Cons.prems(2) f1 f2 have q2: "quiet e (stop_reads w2) (stop_reads w')"
      by (auto intro: quiet_sub)
    from Cons.IH [OF continued(3) q2] continued(1,2) show ?thesis by simp
  qed
qed

lemma one_executed_item_each:
  "list_all (\<lambda>step. length step = 1 \<and> list_all (executes e) step) pre \<Longrightarrow>
   length (filter (executes e) (concat pre)) = length pre"
proof (induction pre)
  case Nil
  then show ?case by simp
next
  case (Cons step pre)
  then obtain item where "step = [item]" "executes e item"
    by (cases step) auto
  with Cons show ?case by simp
qed

text \<open>
  The loop by itself, entered with the lock free: when the first \<open>k\<close> steps \<open>pre\<close> run to
  their end with the stop event clear at every reading and the event is set when step
  \<open>k + 1\<close> is about to start, the loop ends in the state these \<open>k\<close> steps left, with the
  state set to \<open>STOPPED\<close>. One result is recorded for each of their items that has a
  command number with an entry in the library, and nothing is sent for a later step.
\<close>

lemma run_steps_stop_between_steps:
  assumes "run_steps e pre w = Returns () w'"
    and "quiet e (stop_reads w) (stop_reads w')"
    and "stop_event e (stop_reads w')"
    and "\<not> lock_held (mgr w)"
  shows "run_steps e (pre @ step # post) w =
           Returns () (w'\<lparr>mgr := (mgr w')\<lparr>current_state := STOPPED,
                               transitions := transitions (mgr w') @ [(current_state (mgr w), STOPPED)]\<rparr>,
                          stop_reads := Suc (stop_reads w')\<rparr>)
       \<and> length (test_results (mgr w')) =
           length (test_results (mgr w)) + length (filter (executes e) (concat pre))
       \<and> send_calls w' = send_calls w @ map (command_of e) (filter (executes e) (concat pre))
       \<and> (list_all (\<lambda>step. length step = 1 \<and> list_all (executes e) step) pre \<longrightarrow>
            length (test_results (mgr w')) = length (test_results (mgr w)) + length pre)"
proof -
  note q = run_steps_quiet [OF assms(1,2)]
  from run_steps_frame [OF assms(1)] assms(4) have free: "\<not> lock_held (mgr w')" by simp
  have "run_steps e (pre @ step # post) w = run_steps e (step # post) w'"
    using assms(1,2) by (rule run_steps_append_quiet)
  also have "\<dots> = Returns () (w'\<lparr>mgr := (mgr w')\<lparr>current_state := STOPPED,
                               transitions := transitions (mgr w') @ [(current_state (mgr w), STOPPED)]\<rparr>,
                          stop_reads := Suc (stop_reads w')\<rparr>)"
    using assms(3) free q by (cases w') (simp add: on_mgr_def set_state_free)
  finally show ?thesis using q by (simp add: one_executed_item_each)
qed

section \<open>A reply with the wrong prefix\<close>



section \<open>No reply\<close>




section \<open>A command that is not in the library\<close>




section \<open>A reply without a value\<close>

text \<open>
  Claim C10. A reply is received, its prefix is the expected one, the classified actual
  value is absent or empty, and the condition is not of a deferred type. Then
  \<^verbatim>\<open>judge_response\<close> returns a \<open>Pass\<close>, with no expected value and no error message,
  whatever the condition is: the condition is not evaluated.
\<close>

theorem payload_free_reply_passes:
  assumes "reply \<noteq> []"
    and "fst (classify_data reply) = expectation entry"
    and "snd (classify_data reply) = None \<or> snd (classify_data reply) = Some []"
    and "dict_get (condition_of entry) ''type'' \<notin> set deferred_types"
  shows "judge_response ui t now stepname cid ttl cmd entry (Some reply) dur =
     Inr \<lparr>step_name = stepname, command_id = cid, title = ttl, command_sent = cmd,
          prefix = fst (classify_data reply),
          actual_value = snd (classify_data reply), expected_value = PNone,
          result = ''Pass'', duration = dur, timestamp = now,
          error_message = None\<rparr>"
proof -
  from assms(3) have "\<not> present (snd (classify_data reply))" by auto
  with assms(1,2,4) show ?thesis by (simp add: judge_no_value)
qed

text \<open>
  A reply \<^verbatim>\<open>[pressure+ok]\<close> to a command whose condition is \<^verbatim>\<open>between\<close> 10 and 20 passes,
  though the condition is false of the empty value.
\<close>

theorem payload_free_reply_passes_witness:
  "result (projr (judge_response Map.empty 1000 1000 ''Step2'' ''Get_Pressure'' ''Pressure'' ''get_pressure''
                    pressure_entry (Some ''[pressure+ok]'') 1)) = ''Pass''
   \<and> validate_data 1000 (condition_of pressure_entry) [] = Inr False"
proof -
  have h1: "''[pressure+ok]'' \<noteq> []" by simp
  have h2: "fst (classify_data ''[pressure+ok]'') = expectation pressure_entry" by code_simp
  have h3: "snd (classify_data ''[pressure+ok]'') = None \<or> snd (classify_data ''[pressure+ok]'') = Some []"
    by code_simp
  have h4: "dict_get (condition_of pressure_entry) ''type'' \<notin> set deferred_types" by code_simp
  have v: "validate_data 1000 (condition_of pressure_entry) [] = Inr False" by code_simp
  from payload_free_reply_passes [OF h1 h2 h3 h4] v
  show ?thesis by simp
qed

section \<open>Classification of a reply\<close>

text \<open>
  Claim C5. For every reply, the empty one included, \<^verbatim>\<open>classify_data\<close> returns a prefix and
  an optional value such that the reply is the prefix when the value is absent, and the
  prefix, one space and the value otherwise; the empty reply gives the empty prefix and no
  value.
\<close>

theorem classify_roundtrip:
  "(case classify_data raw of
      (p, None) \<Rightarrow> raw = p
    | (p, Some v) \<Rightarrow> raw = p @ '' '' @ v)
   \<and> classify_data [] = ([], None)"
  using split_at_space [of raw] by (simp add: classify_data_def)

theorem classify_roundtrip_witness:
  "classify_data ''[ok] 15 20'' = (''[ok]'', Some ''15 20'') \<and> ''[ok] 15 20'' = ''[ok]'' @ '' '' @ ''15 20''"
  using classify_roundtrip [of "''[ok] 15 20''"] by (simp add: classify_data_def)

section \<open>Sending a command\<close>

text \<open>
  Claim C6, as amended. \<^verbatim>\<open>send_command\<close> never raises. It returns the line read, stripped
  of surrounding whitespace, when the port opens, the write succeeds, input is waiting at
  the end of the settle delay, and the line is read and decoded; in every other case,
  among them an exception of any of these steps and an empty input buffer at the end of
  the settle delay, it returns \<open>None\<close>.
\<close>

theorem send_command_never_raises:
  "send_command ser command =
     Inr (case (open_port ser, write_port ser, in_waiting ser, readline ser) of
            (None, None, Inr n, Inr line) \<Rightarrow> if 0 < n then Some (strip line) else None
          | _ \<Rightarrow> None)"
  by (simp add: send_command_def send_command_body_def split: option.splits sum.splits exc.splits)

theorem send_command_never_raises_witness:
  "send_command (replying '' [sn+ok] SN00000000017 '') ''get_sn'' = Inr (Some ''[sn+ok] SN00000000017'')
   \<and> send_command (silent\<lparr>open_port := Some SerialException\<rparr>) ''get_sn'' = Inr None"
  using send_command_never_raises [of "replying '' [sn+ok] SN00000000017 ''" "''get_sn''"]
        send_command_never_raises [of "silent\<lparr>open_port := Some SerialException\<rparr>" "''get_sn''"]
  by (simp add: replying_def silent_def, code_simp)

text \<open>
  Claim C6 as stated has the reply returned when it arrives within the timeout after the
  settle delay. On a port where nothing is waiting when the settle delay is over and where
  \<^verbatim>\<open>readline\<close> would deliver a line within its timeout, \<^verbatim>\<open>send_command\<close> does not read
  and returns \<open>None\<close>.
\<close>

theorem send_command_late_reply_counterexample:
  "send_command \<lparr>open_port = None, write_port = None, in_waiting = Inr 0,
                  readline = Inr ''[time_tick+ok]''\<rparr> ''time_tick'' = Inr None"
  by (simp add: send_command_def send_command_body_def)

section \<open>Starting a test\<close>

text \<open>
  Claim C7. \<^verbatim>\<open>start_test\<close> is to take the run through \<open>INITIALIZING\<close> to \<open>RUNNING\<close>, with
  the counters reset and the results cleared. On a fresh state manager, and on one that
  holds four results, it records the plan and the start time, clears the results and
  resets the four counters, and then calls \<^verbatim>\<open>set_state(RUNNING)\<close> while it holds the lock:
  the call never returns, the state stays \<open>IDLE\<close>, and no transition is announced, neither
  to \<open>INITIALIZING\<close> nor to \<open>RUNNING\<close>.
\<close>

theorem start_test_never_runs:
  "start_test ''Smoke'' 990 new_manager =
     Blocks (new_manager\<lparr>current_test_plan := Some ''Smoke'', start_time := Some 990,
                          lock_held := True\<rparr>)
   \<and> current_state (state_of (start_test ''Smoke'' 990 new_manager)) = IDLE
   \<and> transitions (state_of (start_test ''Smoke'' 990 new_manager)) = []
   \<and> start_test ''Smoke'' 990 tallied =
       Blocks (tallied\<lparr>current_test_plan := Some ''Smoke'', start_time := Some 990,
                       test_results := [], lock_held := True, total_tests := 0,
                       passed_tests := 0, failed_tests := 0, skipped_tests := 0\<rparr>)
   \<and> current_state (state_of (start_test ''Smoke'' 990 tallied)) = IDLE
   \<and> transitions (state_of (start_test ''Smoke'' 990 tallied)) = []
   \<and> length (test_results tallied) = 4 \<and> total_tests tallied = 4"
proof -
  have f: "\<not> lock_held tallied" "current_state tallied = IDLE" "transitions tallied = []"
    "length (test_results tallied) = 4" "total_tests tallied = 4"
    by code_simp+
  show ?thesis
    using f by (simp add: start_test_blocks new_manager_def)
qed

section \<open>Statistics\<close>

text \<open>
  Claim C9. The pass rate is \<open>passed / total * 100\<close>, and 0 when there is no result; after
  three passes and one failure it is 75. The counters and the formula agree with that, but
  \<^verbatim>\<open>get_statistics\<close>, the only place that computes the rate, calls \<^verbatim>\<open>get_duration\<close> while it
  holds the lock and \<^verbatim>\<open>get_duration\<close> acquires the lock again: the call never returns.
\<close>

theorem get_statistics_blocks:
  "get_statistics 1010 tallied = Blocks (tallied\<lparr>lock_held := True\<rparr>)
   \<and> passed_tests tallied = 3 \<and> total_tests tallied = 4 \<and> pass_rate tallied = 75
   \<and> pass_rate new_manager = 0"
proof -
  have f: "\<not> lock_held tallied" by code_simp
  have "get_statistics 1010 tallied = Blocks (tallied\<lparr>lock_held := True\<rparr>)"
    using f by (simp add: get_statistics_def with_lock_free get_duration_def with_lock_held)
  moreover have "passed_tests tallied = 3 \<and> total_tests tallied = 4 \<and> pass_rate tallied = 75 \<and> pass_rate new_manager = 0"
    by code_simp
  ultimately show ?thesis by simp
qed

section \<open>Stopping between two steps\<close>

text \<open>
  Claim C1. With the stop event set after step \<open>k\<close> and before step \<open>k + 1\<close>, the run is to
  record the results of the first \<open>k\<close> steps and end in the state \<open>STOPPED\<close>. On the plan
  of five steps of the example bench, whenever the stop event is set, \<^verbatim>\<open>run_test_case\<close>
  on a fresh runner never returns: it waits in \<^verbatim>\<open>start_test\<close> for the lock it holds, before
  the first step. Nothing is recorded, nothing is sent, the stop event is not read, and
  the state stays \<open>IDLE\<close>.
\<close>

theorem run_test_case_never_stops:
  "run_test_case (bench k) ''Smoke'' new_world =
     Blocks (new_world\<lparr>mgr := new_manager\<lparr>current_test_plan := Some ''Smoke'',
                                            start_time := Some 990, lock_held := True\<rparr>\<rparr>)
   \<and> current_state (mgr (state_of (run_test_case (bench k) ''Smoke'' new_world))) = IDLE
   \<and> test_results (mgr (state_of (run_test_case (bench k) ''Smoke'' new_world))) = []
   \<and> transitions (mgr (state_of (run_test_case (bench k) ''Smoke'' new_world))) = []
   \<and> send_calls (state_of (run_test_case (bench k) ''Smoke'' new_world)) = []
   \<and> stop_reads (state_of (run_test_case (bench k) ''Smoke'' new_world)) = 0"
  by (simp add: run_test_case_def bench_def on_mgr_def start_test_blocks new_world_def new_manager_def)

section \<open>The condition \<^verbatim>\<open>between\<close>\<close>

text \<open>
  Claim C4. For a condition of type \<^verbatim>\<open>between\<close> with the integer bounds \<open>low\<close> and
  \<open>high\<close>, and every string, \<^verbatim>\<open>validate_data\<close> returns true exactly when the string
  parses as an integer \<open>v\<close> (by \<^verbatim>\<open>int()\<close>) with \<open>low \<le> v \<le> high\<close>, both ends included;
  when the string does not parse it returns false and does not raise. The decimal text of
  an integer \<open>i\<close> is accepted exactly when \<open>low \<le> i \<le> high\<close>. And whatever is accepted
  is made of digits, underscores, a sign and whitespace only, has a digit, and its digits
  spell, up to the sign, a number between the bounds.
\<close>

theorem between_inclusive:
  assumes "dict_get condition ''type'' = PStr ''between''"
    and "to_int (dict_get_default condition ''low'' (PInt 0)) = Inr low"
    and "to_int (dict_get_default condition ''high'' (PInt 0)) = Inr high"
  shows "validate_data current_time condition actual =
           Inr (case py_int actual of None \<Rightarrow> False | Some v \<Rightarrow> low \<le> v \<and> v \<le> high)
       \<and> (length (nat_digits (nat \<bar>i\<bar>)) \<le> int_max_str_digits \<longrightarrow>
            validate_data current_time condition (int_str i) = Inr (low \<le> i \<and> i \<le> high))
       \<and> (validate_data current_time condition actual = Inr True \<longrightarrow>
            list_all (\<lambda>c. is_digit c \<or> c \<in> set ''_+-'' \<or> is_int_space c) actual
            \<and> filter is_digit actual \<noteq> []
            \<and> (\<exists>v. nat \<bar>v\<bar> = decimal (filter is_digit actual) \<and> low \<le> v \<and> v \<le> high))"
proof -
  have v: "validate_data current_time condition s =
           Inr (case py_int s of None \<Rightarrow> False | Some v \<Rightarrow> low \<le> v \<and> v \<le> high)" for s
    using assms by (simp add: validate_data_def split: option.splits)
  have "list_all (\<lambda>c. is_digit c \<or> c \<in> set ''_+-'' \<or> is_int_space c) actual
            \<and> filter is_digit actual \<noteq> []
            \<and> (\<exists>v. nat \<bar>v\<bar> = decimal (filter is_digit actual) \<and> low \<le> v \<and> v \<le> high)"
    if "validate_data current_time condition actual = Inr True"
  proof -
    from that v [of actual] obtain w where w: "py_int actual = Some w" "low \<le> w" "w \<le> high"
      by (auto split: option.splits)
    from py_int_sound [OF w(1)] w(2,3) show ?thesis by blast
  qed
  with v show ?thesis by (simp add: py_int_int_str)
qed

text \<open>
  The four examples of the specification, for the bounds 10 and 20, and a value that
  \<^verbatim>\<open>str.strip()\<close> would turn into \<^verbatim>\<open>15\<close> but \<^verbatim>\<open>int()\<close> refuses.
\<close>

theorem between_inclusive_witness:
  "validate_data 0 (condition_of pressure_entry) ''15'' = Inr True
   \<and> validate_data 0 (condition_of pressure_entry) ''20'' = Inr True
   \<and> validate_data 0 (condition_of pressure_entry) ''21'' = Inr False
   \<and> validate_data 0 (condition_of pressure_entry) ''abc'' = Inr False
   \<and> validate_data 0 (condition_of pressure_entry) (CHR 0x1C # ''15'') = Inr False"
proof -
  have h1: "dict_get (condition_of pressure_entry) ''type'' = PStr ''between''" by code_simp
  have h2: "to_int (dict_get_default (condition_of pressure_entry) ''low'' (PInt 0)) = Inr 10" by code_simp
  have h3: "to_int (dict_get_default (condition_of pressure_entry) ''high'' (PInt 0)) = Inr 20" by code_simp
  have p: "py_int ''15'' = Some 15" "py_int ''20'' = Some 20" "py_int ''21'' = Some 21" "py_int ''abc'' = None"
    "py_int (CHR 0x1C # ''15'') = None"
    by code_simp+
  note b = between_inclusive [OF h1 h2 h3, THEN conjunct1]
  show ?thesis by (simp add: b p)
qed

end
